theory Spec2Isabelle
  imports Main
begin

section \<open>Data model of the structured sequential merger\<close>

text \<open>
  A JavaScript number as the merger sees it. The merger only ever asks
  \<^verbatim>\<open>Number.isFinite\<close> of an input time (in the model: is it of the form
  \<open>Finite v\<close>), and does arithmetic on finite ones only. Time codes are integer
  counts of milliseconds; arithmetic on them is exact (the model does not bound
  them by the 53 bits of a double). The values of \<^verbatim>\<open>perFileOffsetMs\<close> are
  integers, as the data model of the specification has them.
\<close>

datatype jsnum = Finite int | NaN | PosInfinity | NegInfinity

text \<open>
  The interface \<^verbatim>\<open>Cue\<close>. Input cues carry arbitrary numbers (\<open>jsnum Cue\<close>);
  a merged cue is built from finite times and a finite shift only, so its times
  are integers (\<open>int Cue\<close>).
\<close>

record 'n Cue =
  startMs :: 'n
  endMs :: 'n
  cueText :: string
  sourceFileIndex :: "nat option"

record ParsedFile =
  filename :: "string option"
  cues :: "jsnum Cue list"

record MergeOptions =
  perFileOffsetMs :: "(nat \<rightharpoonup> int) option"
  useEffectiveEndMs :: "bool option"
  sortFinalByStart :: "bool option"

record SequentialMergeResult =
  mergedCues :: "int Cue list"
  warnings :: "string list"
  errors :: "string list"

section \<open>Helpers standing for the JavaScript library\<close>

definition digitChar :: "nat \<Rightarrow> char" where
  "digitChar d = ''0123456789'' ! d"

text \<open>Decimal rendering of an index, as a template literal prints it.\<close>

function showNat :: "nat \<Rightarrow> string" where
  "showNat n = (if n < 10 then [digitChar n] else showNat (n div 10) @ [digitChar (n mod 10)])"
  by pat_completeness auto
termination
  by (relation "measure id") auto

text \<open>\<^verbatim>\<open>xs.map(c => Number.isFinite(v) ? v : null).filter(x => x !== null)\<close>\<close>

definition finiteOrNull :: "jsnum \<Rightarrow> int option" where
  "finiteOrNull x = (case x of Finite v \<Rightarrow> Some v | NaN \<Rightarrow> None
                     | PosInfinity \<Rightarrow> None | NegInfinity \<Rightarrow> None)"

fun dropNulls :: "'a option list \<Rightarrow> 'a list" where
  "dropNulls [] = []"
| "dropNulls (None # xs) = dropNulls xs"
| "dropNulls (Some x # xs) = x # dropNulls xs"

definition finiteEnds :: "jsnum Cue list \<Rightarrow> int list" where
  "finiteEnds cs = dropNulls (map (\<lambda>c. finiteOrNull (endMs c)) cs)"

definition finiteStarts :: "jsnum Cue list \<Rightarrow> int list" where
  "finiteStarts cs = dropNulls (map (\<lambda>c. finiteOrNull (startMs c)) cs)"

text \<open>
  \<^verbatim>\<open>Math.max(...xs)\<close> and \<^verbatim>\<open>Math.min(...xs)\<close>. The source calls them on
  non-empty arrays only (each call is guarded by a length test); on the empty
  array JavaScript gives an infinity, which the integer model does not have,
  so the value there is a placeholder that no caller reaches.
\<close>

fun mathMax :: "int list \<Rightarrow> int" where
  "mathMax [] = 0"
| "mathMax (x # xs) = fold max xs x"

fun mathMin :: "int list \<Rightarrow> int" where
  "mathMin [] = 0"
| "mathMin (x # xs) = fold min xs x"

section \<open>mergeParsedFilesSequential\<close>

definition baseEndMsOf :: "ParsedFile \<Rightarrow> int option" where
  "baseEndMsOf pf =
     (let ends = finiteEnds (cues pf)
      in if length ends = 0 then None else Some (mathMax ends))"

text \<open>
  One round of the first loop, after \<^verbatim>\<open>cumulativeShift[i] = runningShift\<close>:
  the new value of \<^verbatim>\<open>runningShift\<close>.
\<close>

definition advanceShift ::
  "(nat \<rightharpoonup> int) \<Rightarrow> int option list \<Rightarrow> ParsedFile list \<Rightarrow> nat \<Rightarrow> int \<Rightarrow> int" where
  "advanceShift offs baseEndMs parsedFiles i runningShift =
     (case offs i of
        Some v \<Rightarrow> runningShift + v
      | None \<Rightarrow>
          (case baseEndMs ! i of
             Some e \<Rightarrow> runningShift + e
           | None \<Rightarrow>
               (let starts = finiteStarts (cues (parsedFiles ! i));
                    ends = finiteEnds (cues (parsedFiles ! i))
                in if length starts \<noteq> 0 \<and> length ends \<noteq> 0
                   then runningShift + max 0 (mathMax ends - mathMin starts)
                   else runningShift)))"

text \<open>The first loop: state is the array \<^verbatim>\<open>cumulativeShift\<close> and \<^verbatim>\<open>runningShift\<close>.\<close>

definition shiftStep ::
  "(nat \<rightharpoonup> int) \<Rightarrow> int option list \<Rightarrow> ParsedFile list \<Rightarrow> nat \<Rightarrow> int list \<times> int
     \<Rightarrow> int list \<times> int" where
  "shiftStep offs baseEndMs parsedFiles i st =
     ((fst st)[i := snd st], advanceShift offs baseEndMs parsedFiles i (snd st))"

definition computeCumulativeShift ::
  "(nat \<rightharpoonup> int) \<Rightarrow> int option list \<Rightarrow> ParsedFile list \<Rightarrow> int list" where
  "computeCumulativeShift offs baseEndMs parsedFiles =
     fst (fold (shiftStep offs baseEndMs parsedFiles) [0..<length parsedFiles]
            (replicate (length parsedFiles) 0, 0))"

text \<open>
  The second loop. The inner loop over the cues of file \<open>i\<close> pushes a shifted
  cue, or a warning for a cue with a non-finite time; state is
  \<^verbatim>\<open>merged\<close> and \<^verbatim>\<open>warnings\<close>.
\<close>

definition pushCue ::
  "nat \<Rightarrow> int \<Rightarrow> jsnum Cue \<Rightarrow> int Cue list \<times> string list \<Rightarrow> int Cue list \<times> string list" where
  "pushCue i shift cue st =
     (case (startMs cue, endMs cue) of
        (Finite s, Finite e) \<Rightarrow>
          (fst st @ [\<lparr>startMs = s + shift, endMs = e + shift, cueText = cueText cue,
                      sourceFileIndex = Some i\<rparr>], snd st)
      | _ \<Rightarrow> (fst st, snd st @ [''file_'' @ showNat i @ ''_malformed_cue'']))"

definition applyFile ::
  "ParsedFile list \<Rightarrow> int list \<Rightarrow> nat \<Rightarrow> int Cue list \<times> string list
     \<Rightarrow> int Cue list \<times> string list" where
  "applyFile parsedFiles cumulativeShift i st =
     (let pf = parsedFiles ! i;
          shift = (if cumulativeShift ! i = 0 then 0 else cumulativeShift ! i)
      in if length (cues pf) = 0
         then (fst st, snd st @ [''file_'' @ showNat i @ ''_no_cues''])
         else fold (pushCue i shift) (cues pf) st)"

definition applyShifts :: "ParsedFile list \<Rightarrow> int list \<Rightarrow> int Cue list \<times> string list" where
  "applyShifts parsedFiles cumulativeShift =
     fold (applyFile parsedFiles cumulativeShift) [0..<length parsedFiles] ([], [])"

text \<open>
  The validation loop over the merged list, from index \<open>i\<close>; the \<^verbatim>\<open>break\<close>
  at a negative time ends it.
\<close>

function validateLoop ::
  "int Cue list \<Rightarrow> nat \<Rightarrow> string list \<Rightarrow> string list \<Rightarrow> string list \<times> string list" where
  "validateLoop merged i ws es =
     (if i < length merged then
        (let c = merged ! i in
         if startMs c < 0 \<or> endMs c < 0 then (ws, es @ [''negative_timestamps''])
         else
           (let ws1 = (if endMs c < startMs c then ws @ [''cue_end_before_start''] else ws);
                ws2 = (if i > 0 \<and> endMs (merged ! (i - 1)) > startMs c
                          \<and> sourceFileIndex (merged ! (i - 1)) = sourceFileIndex c
                       then ws1 @ [''overlap_detected''] else ws1)
            in validateLoop merged (Suc i) ws2 es))
      else (ws, es))"
  by pat_completeness auto
termination
  by (relation "measure (\<lambda>(merged, i, ws, es). length merged - i)") auto

text \<open>\<^verbatim>\<open>options.perFileOffsetMs || {}\<close> and \<^verbatim>\<open>options.sortFinalByStart ?? false\<close>\<close>

definition offsetsOf :: "MergeOptions \<Rightarrow> (nat \<rightharpoonup> int)" where
  "offsetsOf options = (case perFileOffsetMs options of Some m \<Rightarrow> m | None \<Rightarrow> Map.empty)"

definition sortFinalOf :: "MergeOptions \<Rightarrow> bool" where
  "sortFinalOf options = (case sortFinalByStart options of Some b \<Rightarrow> b | None \<Rightarrow> False)"

text \<open>
  \<^verbatim>\<open>merged.sort((a, b) => a.startMs - b.startMs)\<close>: the sort of the language is
  stable, and on integer keys the comparator is a total preorder, so the result
  is the stable sort by \<open>startMs\<close>.
\<close>

definition mergeParsedFilesSequential ::
  "ParsedFile list \<Rightarrow> MergeOptions \<Rightarrow> SequentialMergeResult" where
  "mergeParsedFilesSequential parsedFiles options =
     (let offs = offsetsOf options;
          sortFinal = sortFinalOf options
      in if length parsedFiles = 0
         then \<lparr>mergedCues = [], warnings = [''no_files''], errors = [''no_files_uploaded'']\<rparr>
         else
           (let baseEndMs = map baseEndMsOf parsedFiles;
                cumulativeShift = computeCumulativeShift offs baseEndMs parsedFiles;
                applied = applyShifts parsedFiles cumulativeShift;
                merged = (if sortFinal then sort_key startMs (fst applied) else fst applied);
                checked = validateLoop merged 0 (snd applied) []
            in \<lparr>mergedCues = merged, warnings = fst checked, errors = snd checked\<rparr>))"

section \<open>Strings as the parser reads them\<close>

text \<open>
  Strings are lists of 8-bit characters. White space is what \<^verbatim>\<open>trim\<close> and the
  regular expression class \<^verbatim>\<open>\s\<close> accept in that range: tab, line feed,
  vertical tab, form feed, carriage return, space and the no-break space.
\<close>

definition isWhitespace :: "char \<Rightarrow> bool" where
  "isWhitespace c =
     (c \<in> set [CHR 0x09, CHR 0x0A, CHR 0x0B, CHR 0x0C, CHR 0x0D, CHR 0x20, CHR 0xA0])"

definition trim :: "string \<Rightarrow> string" where
  "trim s = rev (dropWhile isWhitespace (rev (dropWhile isWhitespace s)))"

definition isDigit :: "char \<Rightarrow> bool" where
  "isDigit c = (c \<in> set ''0123456789'')"

text \<open>\<^verbatim>\<open>/^\d+$/.test(line)\<close>\<close>

definition isIndexLine :: "string \<Rightarrow> bool" where
  "isIndexLine line = (line \<noteq> [] \<and> list_all isDigit line)"

text \<open>\<^verbatim>\<open>parseInt(line, 10)\<close> on a line of digits (exact, as a natural number).\<close>

definition parseInt :: "string \<Rightarrow> nat" where
  "parseInt line = foldl (\<lambda>acc c. 10 * acc + (of_char c - 48)) 0 line"

text \<open>\<^verbatim>\<open>s.includes(pat)\<close>\<close>

fun strIncludes :: "string \<Rightarrow> string \<Rightarrow> bool" where
  "strIncludes [] pat = (pat = [])"
| "strIncludes (c # cs) pat = (take (length pat) (c # cs) = pat \<or> strIncludes cs pat)"

text \<open>\<^verbatim>\<open>/\d{1,2}:\d{2}:\d{2}/.test(line)\<close>: the pattern may start anywhere.\<close>

definition matchColonPairs :: "string \<Rightarrow> bool" where
  "matchColonPairs s =
     (case s of
        c1 # a # b # c2 # d # e # rest \<Rightarrow>
          c1 = CHR '':'' \<and> isDigit a \<and> isDigit b \<and> c2 = CHR '':'' \<and> isDigit d \<and> isDigit e
      | _ \<Rightarrow> False)"

definition timePatternAt :: "string \<Rightarrow> bool" where
  "timePatternAt s =
     (case s of
        [] \<Rightarrow> False
      | x # rest \<Rightarrow>
          isDigit x \<and>
          ((case rest of [] \<Rightarrow> False | y # rest2 \<Rightarrow> isDigit y \<and> matchColonPairs rest2)
           \<or> matchColonPairs rest))"

fun hasTimePattern :: "string \<Rightarrow> bool" where
  "hasTimePattern [] = False"
| "hasTimePattern (c # cs) = (timePatternAt (c # cs) \<or> hasTimePattern cs)"

text \<open>
  \<^verbatim>\<open>content.split(/\r?\n/)\<close>: a line feed ends a line, and takes a carriage
  return just before it along; a carriage return alone stays in the line.
\<close>

fun splitLinesAux :: "string \<Rightarrow> string \<Rightarrow> string list" where
  "splitLinesAux cur [] = [rev cur]"
| "splitLinesAux cur [c] = (if c = CHR 0x0A then [rev cur, []] else [rev (c # cur)])"
| "splitLinesAux cur (c # d # rest) =
     (if c = CHR 0x0A then rev cur # splitLinesAux [] (d # rest)
      else if c = CHR 0x0D \<and> d = CHR 0x0A then rev cur # splitLinesAux [] rest
      else splitLinesAux (c # cur) (d # rest))"

definition splitLines :: "string \<Rightarrow> string list" where
  "splitLines content = splitLinesAux [] content"

section \<open>permissiveParseSrt\<close>

record SrtBlock =
  origIndex :: "nat option"
  tsRaw :: string
  texts :: "string list"

text \<open>The local variables of the parser's loop.\<close>

record ParserState =
  blocks :: "SrtBlock list"
  currentBlock :: "SrtBlock option"
  textLines :: "string list"
  expectingIndex :: bool
  expectingTimestamp :: bool
  isReadingText :: bool

definition initialParserState :: ParserState where
  "initialParserState =
     \<lparr>blocks = [], currentBlock = None, textLines = [], expectingIndex = True,
      expectingTimestamp = False, isReadingText = False\<rparr>"

text \<open>One round of the loop over the lines; \<open>rawLine\<close> is \<^verbatim>\<open>lines[i]\<close>.\<close>

definition parseStep :: "string \<Rightarrow> ParserState \<Rightarrow> ParserState" where
  "parseStep rawLine st =
     (let line = trim rawLine in
      if isIndexLine line then
        (let st1 =
           (case currentBlock st of
              Some b \<Rightarrow>
                if tsRaw b \<noteq> [] \<or> length (textLines st) > 0
                then st\<lparr>blocks := blocks st @ [b\<lparr>texts := textLines st\<rparr>], textLines := []\<rparr>
                else st
            | None \<Rightarrow> st)
         in st1\<lparr>currentBlock := Some \<lparr>origIndex = Some (parseInt line), tsRaw = [], texts = []\<rparr>,
                expectingIndex := False, expectingTimestamp := True, isReadingText := False\<rparr>)
      else if expectingTimestamp st \<and> (strIncludes line ''-->'' \<or> hasTimePattern line) then
        (case currentBlock st of
           Some b \<Rightarrow> st\<lparr>currentBlock := Some (b\<lparr>tsRaw := line\<rparr>),
                         expectingTimestamp := False, isReadingText := True\<rparr>
         | None \<Rightarrow> st)
      else if isReadingText st \<and> currentBlock st \<noteq> None then
        (if line = [] then st\<lparr>textLines := textLines st @ [[]]\<rparr>
         else st\<lparr>textLines := textLines st @ [line]\<rparr>)
      else if currentBlock st \<noteq> None \<and> expectingTimestamp st = False then
        (if line = [] then st\<lparr>textLines := textLines st @ [[]], isReadingText := True\<rparr>
         else st\<lparr>textLines := textLines st @ [line], isReadingText := True\<rparr>)
      else if currentBlock st = None \<and> expectingIndex st = False then
        st\<lparr>currentBlock := Some \<lparr>origIndex = None, tsRaw = [], texts = [line]\<rparr>,
           isReadingText := True\<rparr>
      else st)"

text \<open>The state after the loop has read the given lines.\<close>

definition parseLines :: "string list \<Rightarrow> ParserState" where
  "parseLines ls = fold parseStep ls initialParserState"

text \<open>After the loop: the open block, if any, takes the collected text lines.\<close>

definition finishParse :: "ParserState \<Rightarrow> SrtBlock list" where
  "finishParse st =
     (case currentBlock st of
        Some b \<Rightarrow> blocks st @ [b\<lparr>texts := textLines st\<rparr>]
      | None \<Rightarrow> blocks st)"

definition permissiveParseSrt :: "string \<Rightarrow> SrtBlock list" where
  "permissiveParseSrt content = finishParse (parseLines (splitLines content))"

text \<open>
  The copy of the parser in \<^verbatim>\<open>src/utils/srt-merge.ts\<close>. It has no
  \<^verbatim>\<open>isReadingText\<close> (the field is carried along unchanged): an empty line
  ends the open block, and a line of digits is an index only when one is expected.
\<close>

definition parseStepUtils :: "string \<Rightarrow> ParserState \<Rightarrow> ParserState" where
  "parseStepUtils rawLine st =
     (let line = trim rawLine in
      if line = [] then
        (case currentBlock st of
           Some b \<Rightarrow> st\<lparr>blocks := blocks st @ [b\<lparr>texts := textLines st\<rparr>], currentBlock := None,
                         textLines := [], expectingIndex := True, expectingTimestamp := False\<rparr>
         | None \<Rightarrow> st)
      else if expectingIndex st \<and> isIndexLine line then
        st\<lparr>currentBlock := Some \<lparr>origIndex = Some (parseInt line), tsRaw = [], texts = []\<rparr>,
           expectingIndex := False, expectingTimestamp := True\<rparr>
      else if expectingTimestamp st \<and> (strIncludes line ''-->'' \<or> hasTimePattern line) then
        (case currentBlock st of
           Some b \<Rightarrow> st\<lparr>currentBlock := Some (b\<lparr>tsRaw := line\<rparr>), expectingTimestamp := False\<rparr>
         | None \<Rightarrow> st)
      else if currentBlock st \<noteq> None then st\<lparr>textLines := textLines st @ [line]\<rparr>
      else if expectingIndex st = False then
        st\<lparr>currentBlock := Some \<lparr>origIndex = None, tsRaw = [], texts = [line]\<rparr>\<rparr>
      else st)"

definition permissiveParseSrtUtils :: "string \<Rightarrow> SrtBlock list" where
  "permissiveParseSrtUtils content =
     finishParse (fold parseStepUtils (splitLines content) initialParserState)"

section \<open>mergeSrtFiles\<close>

text \<open>
  The module \<^verbatim>\<open>./timestamp-arith\<close> is not among the sources. Its three functions
  that \<^verbatim>\<open>mergeSrtFiles\<close> calls are parameters of the model, with the types the
  calls give them: a result that may be \<^verbatim>\<open>null\<close> is an option.
\<close>

record Codec =
  parseTimestampToMs :: "string \<Rightarrow> int option"
  shiftTimestampLine :: "string \<Rightarrow> int \<Rightarrow> string option"
  makeFallbackTimestamp :: "int \<Rightarrow> int \<Rightarrow> int \<Rightarrow> string"

datatype Action = Normal | Normalized | Fallback

record MergeDiagnostic =
  src_file :: string
  original_index :: "nat option"
  original_timestamp_line :: string
  final_index :: nat
  final_timestamp :: string
  action :: Action
  reason :: "string option"

record MergedBlock =
  index :: nat
  timestamp :: string
  blockTexts :: "string list"

record MergeStats =
  totalInputCues :: nat
  totalOutputCues :: nat
  parseIssuesCount :: nat
  filesProcessed :: nat

record MergeResult =
  mergedSrt :: string
  diagnostics :: "MergeDiagnostic list"
  stats :: MergeStats

record SrtFile =
  name :: string
  content :: string

text \<open>
  The local variables of \<^verbatim>\<open>mergeSrtFiles\<close>: \<open>diags\<close> is \<^verbatim>\<open>diagnostics\<close>,
  \<open>inputCues\<close> is \<^verbatim>\<open>totalInputCues\<close> and \<open>parseIssues\<close> is
  \<^verbatim>\<open>parseIssuesCount\<close> (the result's fields have those names).
\<close>

record MergeState =
  diags :: "MergeDiagnostic list"
  mergedBlocks :: "MergedBlock list"
  cumulativeMs :: int
  globalIndex :: nat
  lastMergedEndMs :: "int option"
  inputCues :: nat
  parseIssues :: nat
  currentFileLastEndMs :: int

text \<open>\<^verbatim>\<open>s.split('-->')\<close>\<close>

function splitArrowAux :: "string \<Rightarrow> string \<Rightarrow> string list" where
  "splitArrowAux cur [] = [rev cur]"
| "splitArrowAux cur (c # cs) =
     (if take 3 (c # cs) = ''-->'' then rev cur # splitArrowAux [] (drop 3 (c # cs))
      else splitArrowAux (c # cur) cs)"
  by pat_completeness auto
termination
  by (relation "measure (\<lambda>(cur, s). length s)") auto

text \<open>
  \<^verbatim>\<open>s.split('-->')[1]?.trim()\<close>, then the test \<^verbatim>\<open>if (endToken)\<close>: the token,
  when there is a second part and its trimmed text is not empty.
\<close>

definition endTokenOf :: "string \<Rightarrow> string option" where
  "endTokenOf s =
     (let parts = splitArrowAux [] s
      in if length parts > 1 \<and> trim (parts ! 1) \<noteq> [] then Some (trim (parts ! 1)) else None)"

text \<open>\<^verbatim>\<open>s.replace(/\s+/g, ' ').trim()\<close>\<close>

function collapseWhitespace :: "string \<Rightarrow> string" where
  "collapseWhitespace [] = []"
| "collapseWhitespace (c # cs) =
     (if isWhitespace c then CHR 0x20 # collapseWhitespace (dropWhile isWhitespace cs)
      else c # collapseWhitespace cs)"
  by pat_completeness auto
termination
  by (relation "measure length") (auto simp: less_Suc_eq_le length_dropWhile_le)

definition normalizeSpaces :: "string \<Rightarrow> string" where
  "normalizeSpaces s = trim (collapseWhitespace s)"

text \<open>\<^verbatim>\<open>if (shiftedLine)\<close>: \<^verbatim>\<open>null\<close> and the empty string are both false.\<close>

definition truthyString :: "string option \<Rightarrow> string option" where
  "truthyString r = (case r of None \<Rightarrow> None | Some s \<Rightarrow> if s = [] then None else Some s)"

text \<open>The end time of a line, when it has an end token that parses.\<close>

definition endMsOf :: "Codec \<Rightarrow> string \<Rightarrow> int option" where
  "endMsOf codec s =
     (case endTokenOf s of None \<Rightarrow> None | Some tok \<Rightarrow> parseTimestampToMs codec tok)"

text \<open>
  One round of the loop over the blocks of a file. \<open>branch\<close> is what the two arms
  of \<^verbatim>\<open>if (shiftedLine)\<close> leave behind: the final time line, the action, the
  reason and the state.
\<close>

definition processBlock :: "Codec \<Rightarrow> string \<Rightarrow> SrtBlock \<Rightarrow> MergeState \<Rightarrow> MergeState" where
  "processBlock codec fileName b st =
     (let shiftedLine = shiftTimestampLine codec (tsRaw b) (cumulativeMs st);
          branch =
            (case truthyString shiftedLine of
               Some sl \<Rightarrow>
                 (sl,
                  (if normalizeSpaces sl \<noteq> normalizeSpaces (tsRaw b) then Normalized else Normal),
                  None,
                  st\<lparr>currentFileLastEndMs :=
                       (case truthyString (shiftTimestampLine codec (tsRaw b) 0) of
                          Some unshiftedLine \<Rightarrow>
                            (case endMsOf codec unshiftedLine of
                               Some e \<Rightarrow>
                                 if e > currentFileLastEndMs st then e
                                 else currentFileLastEndMs st
                             | None \<Rightarrow> currentFileLastEndMs st)
                        | None \<Rightarrow> currentFileLastEndMs st)\<rparr>)
             | None \<Rightarrow>
                 (let prevEnd = (case lastMergedEndMs st of Some e \<Rightarrow> e | None \<Rightarrow> 0);
                      fallbackTs = makeFallbackTimestamp codec prevEnd (cumulativeMs st) 200
                  in (fallbackTs, Fallback, Some ''Unparseable timestamp line'',
                      st\<lparr>parseIssues := parseIssues st + 1,
                         currentFileLastEndMs :=
                           (case endMsOf codec fallbackTs of
                              Some fallbackEndMs \<Rightarrow>
                                if fallbackEndMs - cumulativeMs st > currentFileLastEndMs st
                                then fallbackEndMs - cumulativeMs st
                                else currentFileLastEndMs st
                            | None \<Rightarrow> currentFileLastEndMs st)\<rparr>)))
      in case branch of
           (finalTs, act, why, st1) \<Rightarrow>
             (let st2 = st1\<lparr>lastMergedEndMs :=
                            (case endMsOf codec finalTs of
                               Some e \<Rightarrow> Some e
                             | None \<Rightarrow> lastMergedEndMs st1)\<rparr>;
                  st3 =
                    (if act \<noteq> Normal
                     then st2\<lparr>diags := diags st2 @
                                [\<lparr>src_file = fileName, original_index = origIndex b,
                                  original_timestamp_line = tsRaw b,
                                  final_index = globalIndex st2, final_timestamp = finalTs,
                                  action = act, reason = why\<rparr>]\<rparr>
                     else st2)
              in st3\<lparr>mergedBlocks := mergedBlocks st3 @
                         [\<lparr>index = globalIndex st3, timestamp = finalTs,
                           blockTexts =
                             (if length (texts b) > 0 then texts b else [''[No text]''])\<rparr>],
                      globalIndex := globalIndex st3 + 1\<rparr>))"

text \<open>One round of the loop over the files.\<close>

definition processFile :: "Codec \<Rightarrow> SrtFile \<Rightarrow> MergeState \<Rightarrow> MergeState" where
  "processFile codec file st =
     (let parsed = permissiveParseSrt (content file);
          st1 = st\<lparr>inputCues := inputCues st + length parsed, currentFileLastEndMs := 0\<rparr>;
          st2 = fold (processBlock codec (name file)) parsed st1
      in st2\<lparr>cumulativeMs := cumulativeMs st2 + currentFileLastEndMs st2\<rparr>)"

definition initialMergeState :: MergeState where
  "initialMergeState =
     \<lparr>diags = [], mergedBlocks = [], cumulativeMs = 0, globalIndex = 1,
      lastMergedEndMs = None, inputCues = 0, parseIssues = 0, currentFileLastEndMs = 0\<rparr>"

text \<open>The state when the loop over the files ends.\<close>

definition mergeLoop :: "Codec \<Rightarrow> SrtFile list \<Rightarrow> MergeState" where
  "mergeLoop codec files = fold (processFile codec) files initialMergeState"

text \<open>\<^verbatim>\<open>xs.join(sep)\<close>\<close>

fun joinWith :: "string \<Rightarrow> string list \<Rightarrow> string" where
  "joinWith sep [] = []"
| "joinWith sep [x] = x"
| "joinWith sep (x # y # ys) = x @ sep @ joinWith sep (y # ys)"

definition renderBlock :: "MergedBlock \<Rightarrow> string" where
  "renderBlock blk =
     showNat (index blk) @ [CHR 0x0A] @ timestamp blk @ [CHR 0x0A]
       @ joinWith [CHR 0x0A] (blockTexts blk) @ [CHR 0x0A]"

definition mergeSrtFiles :: "Codec \<Rightarrow> SrtFile list \<Rightarrow> MergeResult" where
  "mergeSrtFiles codec files =
     (let st = mergeLoop codec files
      in \<lparr>mergedSrt = joinWith [CHR 0x0A] (map renderBlock (mergedBlocks st)),
          diagnostics = diags st,
          stats = \<lparr>totalInputCues = inputCues st,
                   totalOutputCues = length (mergedBlocks st),
                   parseIssuesCount = parseIssues st,
                   filesProcessed = length files\<rparr>\<rparr>)"

section \<open>What the claims speak of\<close>

text \<open>
  The duration chosen for file \<open>j\<close>, in the words of the specification: the
  override if present, else the maximum finite end, else the derived span, else 0.
\<close>

definition chosenDuration :: "(nat \<rightharpoonup> int) \<Rightarrow> ParsedFile list \<Rightarrow> nat \<Rightarrow> int" where
  "chosenDuration offs parsedFiles j =
     (case offs j of
        Some v \<Rightarrow> v
      | None \<Rightarrow>
          (let ends = finiteEnds (cues (parsedFiles ! j));
               starts = finiteStarts (cues (parsedFiles ! j))
           in if ends \<noteq> [] then Max (set ends)
              else if starts \<noteq> [] \<and> ends \<noteq> [] then max 0 (Max (set ends) - Min (set starts))
              else 0))"

text \<open>The sum of the chosen durations of files \<open>0..i-1\<close>, in order.\<close>

definition shiftBefore :: "(nat \<rightharpoonup> int) \<Rightarrow> ParsedFile list \<Rightarrow> nat \<Rightarrow> int" where
  "shiftBefore offs parsedFiles i = sum_list (map (chosenDuration offs parsedFiles) [0..<i])"

text \<open>
  A cue of file \<open>i\<close> moved by \<open>shift\<close> and stamped with its file; a cue with a
  non-finite time is not emitted.
\<close>

definition shiftedCue :: "nat \<Rightarrow> int \<Rightarrow> jsnum Cue \<Rightarrow> int Cue option" where
  "shiftedCue i shift cue =
     (case (startMs cue, endMs cue) of
        (Finite s, Finite e) \<Rightarrow>
          Some \<lparr>startMs = s + shift, endMs = e + shift, cueText = cueText cue,
                sourceFileIndex = Some i\<rparr>
      | _ \<Rightarrow> None)"

definition shiftedCues :: "nat \<Rightarrow> int \<Rightarrow> jsnum Cue list \<Rightarrow> int Cue list" where
  "shiftedCues i shift cs = dropNulls (map (shiftedCue i shift) cs)"

text \<open>File order and, within each file, input cue order.\<close>

definition flattened :: "(nat \<Rightarrow> int) \<Rightarrow> ParsedFile list \<Rightarrow> int Cue list" where
  "flattened shiftOf parsedFiles =
     concat (map (\<lambda>i. shiftedCues i (shiftOf i) (cues (parsedFiles ! i)))
               [0..<length parsedFiles])"

text \<open>The cues of the merged output that come from file \<open>k\<close>.\<close>

definition cuesOfFile :: "nat \<Rightarrow> int Cue list \<Rightarrow> int Cue list" where
  "cuesOfFile k merged = filter (\<lambda>c. sourceFileIndex c = Some k) merged"

text \<open>
  The part of the merged list that the validation scan passes: the cues before the
  first one with a negative time.
\<close>

definition nonNegativeCue :: "int Cue \<Rightarrow> bool" where
  "nonNegativeCue c = (0 \<le> startMs c \<and> 0 \<le> endMs c)"

definition scannedPrefix :: "int Cue list \<Rightarrow> int Cue list" where
  "scannedPrefix merged = takeWhile nonNegativeCue merged"

definition endsBeforeStart :: "int Cue \<Rightarrow> bool" where
  "endsBeforeStart c = (endMs c < startMs c)"

text \<open>
  Position \<open>j\<close> and the one before it overlap and come from the same file.
\<close>

definition overlapAt :: "int Cue list \<Rightarrow> nat \<Rightarrow> bool" where
  "overlapAt merged j =
     (0 < j \<and> endMs (merged ! (j - 1)) > startMs (merged ! j)
      \<and> sourceFileIndex (merged ! (j - 1)) = sourceFileIndex (merged ! j))"

section \<open>Example inputs\<close>

definition cue :: "int \<Rightarrow> int \<Rightarrow> string \<Rightarrow> jsnum Cue" where
  "cue s e t = \<lparr>startMs = Finite s, endMs = Finite e, cueText = t, sourceFileIndex = None\<rparr>"

definition parsedFile :: "jsnum Cue list \<Rightarrow> ParsedFile" where
  "parsedFile cs = \<lparr>filename = None, cues = cs\<rparr>"

definition defaultOptions :: MergeOptions where
  "defaultOptions = \<lparr>perFileOffsetMs = None, useEffectiveEndMs = None, sortFinalByStart = None\<rparr>"

text \<open>
  Four files: the second has an override and a cue with a non-finite start, the
  third has no cues.
\<close>

definition exampleFiles :: "ParsedFile list" where
  "exampleFiles =
     [parsedFile [cue 0 1683760 ''A''],
      parsedFile [cue 0 1800000 ''B'',
                  \<lparr>startMs = NaN, endMs = Finite 2000, cueText = ''X'', sourceFileIndex = None\<rparr>],
      parsedFile [],
      parsedFile [cue 0 1306220 ''C'']]"

definition exampleOptions :: MergeOptions where
  "exampleOptions = defaultOptions\<lparr>perFileOffsetMs := Some [1 \<mapsto> 2000000]\<rparr>"

text \<open>Two files, the first with its cues out of order.\<close>

definition unorderedFiles :: "ParsedFile list" where
  "unorderedFiles =
     [parsedFile [cue 500 600 ''A'', cue 100 200 ''B''], parsedFile [cue 0 50 ''C'']]"

text \<open>A cue with a negative time, followed by a cue that ends before it starts.\<close>

definition negativeThenReversed :: "ParsedFile list" where
  "negativeThenReversed = [parsedFile [cue (-1000) (-500) ''A'', cue 2000 1000 ''B'']]"

text \<open>A cue with a negative time, followed by two cues of the same file that overlap.\<close>

definition negativeThenOverlap :: "ParsedFile list" where
  "negativeThenOverlap =
     [parsedFile [cue (-1000) (-500) ''A'', cue 0 2000 ''B'', cue 1000 3000 ''C'']]"

text \<open>
  One file with an overlap and a reversed cue; a second file whose override-free
  shift leaves its first cue negative, which ends the scan.
\<close>

definition mixedFiles :: "ParsedFile list" where
  "mixedFiles =
     [parsedFile [cue 0 2000 ''B'', cue 1000 3000 ''C'', cue 5000 4000 ''D''],
      parsedFile [cue (-10000) 100 ''E'', cue 50 20 ''F'']]"

text \<open>A block whose caption has padded lines and a blank line inside.\<close>

definition captionWithBlank :: string where
  "captionWithBlank =
     ''1\<newline>00:00:01,000 --> 00:00:02,000\<newline>  Hello \<newline>\<newline>World''"

definition paddedCaption :: string where
  "paddedCaption = ''1\<newline>00:00:01,000 --> 00:00:02,000\<newline>  hi  ''"

text \<open>A block with a time line and one blank line after it: no caption at all.\<close>

definition blankCaption :: string where
  "blankCaption = ''1\<newline>00:00:01,000 --> 00:00:02,000\<newline>''"

section \<open>A codec for the examples\<close>

text \<open>
  Modelled from the spec: the timestamp codec of the module \<^verbatim>\<open>./timestamp-arith\<close>,
  which is not among the sources. The theorems about \<^verbatim>\<open>mergeSrtFiles\<close> hold for
  every codec; this one only runs the examples. A time token has the form
  \<open>HH:MM:SS,mmm\<close>, with a comma or a period before the milliseconds and white
  space allowed around it; a line is shifted by parsing both sides of the arrow,
  adding the offset and formatting again; a fallback line starts at
  \<open>max previousEndMs cumulativeOffsetMs + gapMs\<close> and lasts a fixed span, which
  the specification leaves open and which is a parameter here.
\<close>

definition parseTimeCode :: "string \<Rightarrow> int option" where
  "parseTimeCode token =
     (let t = trim token in
      if length t = 12 \<and> t ! 2 = CHR '':'' \<and> t ! 5 = CHR '':''
         \<and> (t ! 8 = CHR '','' \<or> t ! 8 = CHR ''.'')
         \<and> list_all isDigit (take 2 t) \<and> list_all isDigit (take 2 (drop 3 t))
         \<and> list_all isDigit (take 2 (drop 6 t)) \<and> list_all isDigit (drop 9 t)
      then Some (int (((parseInt (take 2 t) * 60 + parseInt (take 2 (drop 3 t))) * 60
                        + parseInt (take 2 (drop 6 t))) * 1000 + parseInt (drop 9 t)))
      else None)"

definition twoDigits :: "int \<Rightarrow> string" where
  "twoDigits v = [digitChar (nat (v div 10 mod 10)), digitChar (nat (v mod 10))]"

definition threeDigits :: "int \<Rightarrow> string" where
  "threeDigits v =
     [digitChar (nat (v div 100 mod 10)), digitChar (nat (v div 10 mod 10)),
      digitChar (nat (v mod 10))]"

definition formatTimeCode :: "int \<Rightarrow> string" where
  "formatTimeCode ms =
     (if ms div 3600000 < 100 then twoDigits (ms div 3600000) else showNat (nat (ms div 3600000)))
     @ '':'' @ twoDigits (ms div 60000 mod 60) @ '':'' @ twoDigits (ms div 1000 mod 60)
     @ '','' @ threeDigits (ms mod 1000)"

definition shiftTimecodeLine :: "string \<Rightarrow> int \<Rightarrow> string option" where
  "shiftTimecodeLine rawLine offsetMs =
     (let parts = splitArrowAux [] rawLine
      in if length parts = 2
         then (case parseTimeCode (parts ! 0) of
                 None \<Rightarrow> None
               | Some a \<Rightarrow>
                   (case parseTimeCode (parts ! 1) of
                      None \<Rightarrow> None
                    | Some b \<Rightarrow>
                        Some (formatTimeCode (a + offsetMs) @ '' --> ''
                              @ formatTimeCode (b + offsetMs))))
         else None)"

definition fallbackTimestamp :: "int \<Rightarrow> int \<Rightarrow> int \<Rightarrow> int \<Rightarrow> string" where
  "fallbackTimestamp span previousEndMs cumulativeOffsetMs gapMs =
     (let start = max previousEndMs cumulativeOffsetMs + gapMs
      in formatTimeCode start @ '' --> '' @ formatTimeCode (start + span))"

definition specCodec :: "int \<Rightarrow> Codec" where
  "specCodec span =
     \<lparr>parseTimestampToMs = parseTimeCode, shiftTimestampLine = shiftTimecodeLine,
      makeFallbackTimestamp = fallbackTimestamp span\<rparr>"

text \<open>Three blocks; the time line of the second does not parse.\<close>

definition threeBlocks :: "SrtFile list" where
  "threeBlocks =
     [\<lparr>name = ''f.srt'',
       content = ''1\<newline>00:00:01,000 --> 00:00:02,000\<newline>One\<newline>\<newline>2\<newline>00:00:0x --> later\<newline>Two\<newline>\<newline>3\<newline>00:00:05,000 --> 00:00:06,000\<newline>Three''\<rparr>]"

text \<open>What a parsed block contributes as text lines of its merged block.\<close>

definition emittedTexts :: "SrtBlock \<Rightarrow> string list" where
  "emittedTexts b = (if texts b = [] then [''[No text]''] else texts b)"

definition fallbackCount :: "MergeDiagnostic list \<Rightarrow> nat" where
  "fallbackCount ds = length (filter (\<lambda>d. action d = Fallback) ds)"

text \<open>
  The time line a block is emitted with when the cumulative offset is \<open>cum\<close> and
  the last merged end time is \<open>lastEnd\<close>: the shifted line if the codec gives a
  non-empty one, else the fallback line, made from the last merged end time (0 if
  there is none yet), the cumulative offset and the gap of 200 ms.
\<close>

definition timestampAt :: "Codec \<Rightarrow> SrtBlock \<Rightarrow> int \<Rightarrow> int option \<Rightarrow> string" where
  "timestampAt codec b cum lastEnd =
     (case truthyString (shiftTimestampLine codec (tsRaw b) cum) of
        Some sl \<Rightarrow> sl
      | None \<Rightarrow>
          makeFallbackTimestamp codec (case lastEnd of Some e \<Rightarrow> e | None \<Rightarrow> 0) cum 200)"

text \<open>The warnings of the second loop all start with \<open>file_\<close>.\<close>

definition filePrefixed :: "string \<Rightarrow> bool" where
  "filePrefixed w = (take 5 w = ''file_'')"

section \<open>Recursive equations are unfolded by hand\<close>

declare validateLoop.simps [simp del]

declare showNat.simps [simp del]

section \<open>Empty input\<close>

text \<open>
  C3: for the empty file list and any options, the merger returns (it is a total
  function: no branch of the source throws) the result with no merged cues, the
  error \<open>no_files_uploaded\<close> and the warning \<open>no_files\<close>.
\<close>

theorem mergeParsedFilesSequential_empty:
  "mergedCues (mergeParsedFilesSequential [] options) = []
   \<and> ''no_files_uploaded'' \<in> set (errors (mergeParsedFilesSequential [] options))
   \<and> ''no_files'' \<in> set (warnings (mergeParsedFilesSequential [] options))"
  by (simp add: mergeParsedFilesSequential_def)

section \<open>Cumulative shifts\<close>

lemma mathMax_Max: "xs \<noteq> [] \<Longrightarrow> mathMax xs = Max (set xs)"
  by (cases xs) (auto simp flip: Max.set_eq_fold)

lemma advanceShift_chosen:
  assumes "i < length parsedFiles"
  shows "advanceShift offs (map baseEndMsOf parsedFiles) parsedFiles i r
         = r + chosenDuration offs parsedFiles i"
  using assms
  by (auto simp: advanceShift_def chosenDuration_def baseEndMsOf_def Let_def mathMax_Max
           split: option.splits)

lemma shift_fold_invariant:
  assumes "k \<le> length parsedFiles"
  shows "\<exists>cs. fold (shiftStep offs (map baseEndMsOf parsedFiles) parsedFiles) [0..<k]
                     (replicate (length parsedFiles) 0, 0)
               = (cs, shiftBefore offs parsedFiles k)
             \<and> length cs = length parsedFiles
             \<and> (\<forall>i<k. cs ! i = shiftBefore offs parsedFiles i)"
  using assms
proof (induction k)
  case 0
  then show ?case by (simp add: shiftBefore_def)
next
  case (Suc k)
  then have k: "k < length parsedFiles" by simp
  from Suc obtain cs where
    st: "fold (shiftStep offs (map baseEndMsOf parsedFiles) parsedFiles) [0..<k]
           (replicate (length parsedFiles) 0, 0)
         = (cs, shiftBefore offs parsedFiles k)"
    and len: "length cs = length parsedFiles"
    and pre: "\<forall>i<k. cs ! i = shiftBefore offs parsedFiles i"
    by auto
  have "fold (shiftStep offs (map baseEndMsOf parsedFiles) parsedFiles) [0..<Suc k]
           (replicate (length parsedFiles) 0, 0)
        = (cs[k := shiftBefore offs parsedFiles k], shiftBefore offs parsedFiles (Suc k))"
    using k by (simp add: st shiftStep_def advanceShift_chosen shiftBefore_def)
  moreover have "\<forall>i<Suc k. cs[k := shiftBefore offs parsedFiles k] ! i
                   = shiftBefore offs parsedFiles i"
    using k len pre by (auto simp: nth_list_update less_Suc_eq)
  ultimately show ?case using len by simp
qed

lemma computeCumulativeShift_sum:
  assumes "i < length parsedFiles"
  shows "computeCumulativeShift offs (map baseEndMsOf parsedFiles) parsedFiles ! i
         = shiftBefore offs parsedFiles i"
  using shift_fold_invariant[of "length parsedFiles" parsedFiles offs] assms
  by (auto simp: computeCumulativeShift_def)

lemma fold_pushCue:
  "fst (fold (pushCue i shift) cs st) = fst st @ shiftedCues i shift cs"
  by (induction cs arbitrary: st)
     (auto simp: pushCue_def shiftedCues_def shiftedCue_def split: jsnum.splits)

lemma applyFile_fst:
  "fst (applyFile parsedFiles cumulativeShift i st)
   = fst st @ shiftedCues i (cumulativeShift ! i) (cues (parsedFiles ! i))"
  by (auto simp: applyFile_def Let_def fold_pushCue shiftedCues_def)

lemma fold_applyFile:
  "fst (fold (applyFile parsedFiles cumulativeShift) ix st)
   = fst st @ concat (map (\<lambda>i. shiftedCues i (cumulativeShift ! i) (cues (parsedFiles ! i))) ix)"
  by (induction ix arbitrary: st) (simp_all add: applyFile_fst)

lemma applyShifts_fst:
  "fst (applyShifts parsedFiles (computeCumulativeShift offs (map baseEndMsOf parsedFiles) parsedFiles))
   = flattened (shiftBefore offs parsedFiles) parsedFiles"
proof -
  have "map (\<lambda>i. shiftedCues i
               (computeCumulativeShift offs (map baseEndMsOf parsedFiles) parsedFiles ! i)
               (cues (parsedFiles ! i))) [0..<length parsedFiles]
        = map (\<lambda>i. shiftedCues i (shiftBefore offs parsedFiles i)
               (cues (parsedFiles ! i))) [0..<length parsedFiles]"
    by (simp add: computeCumulativeShift_sum)
  then show ?thesis
    by (simp only: applyShifts_def fold_applyFile fst_conv append_Nil flattened_def)
qed

lemma mergedCues_eq:
  "mergedCues (mergeParsedFilesSequential parsedFiles options)
       = (if sortFinalOf options then sort_key startMs else id)
           (flattened (shiftBefore (offsetsOf options) parsedFiles) parsedFiles)"
  by (simp add: mergeParsedFilesSequential_def Let_def applyShifts_fst flattened_def)

lemma filter_shiftedCues:
  "filter (\<lambda>c. sourceFileIndex c = Some k) (shiftedCues i s cs)
   = (if i = k then shiftedCues i s cs else [])"
  by (induction cs)
     (auto simp: shiftedCues_def shiftedCue_def split: jsnum.splits)

lemma concat_pick:
  "concat (map (\<lambda>i. if i = k then F i else []) [0..<n]) = (if k < n then F k else [])"
  by (induction n) auto

lemma cuesOfFile_flattened:
  "cuesOfFile k (flattened sh parsedFiles)
   = (if k < length parsedFiles then shiftedCues k (sh k) (cues (parsedFiles ! k)) else [])"
  by (simp add: cuesOfFile_def flattened_def filter_concat comp_def filter_shiftedCues concat_pick)

lemma cuesOfFile_sort:
  "cuesOfFile k (sort_key startMs xs) = sort_key startMs (cuesOfFile k xs)"
  by (simp add: cuesOfFile_def filter_sort)

lemma cuesOfFile_merged:
  "cuesOfFile k (mergedCues (mergeParsedFilesSequential parsedFiles options))
   = (if sortFinalOf options then sort_key startMs else id)
       (if k < length parsedFiles
        then shiftedCues k (shiftBefore (offsetsOf options) parsedFiles k) (cues (parsedFiles ! k))
        else [])"
  by (simp add: mergedCues_eq cuesOfFile_sort cuesOfFile_flattened)

text \<open>
  C1: for a non-empty list of files and any options, the shift of file \<open>i\<close> is the
  sum, over the files \<open>0..i-1\<close> in order, of each file's chosen duration (the
  override if present, else the maximum finite end, else the derived span, else 0);
  the shift of file 0 is 0; and the cues of file \<open>i\<close> in the merged output are
  its cues with finite times, each moved by exactly that sum.
\<close>

theorem cumulative_shift_is_sum_of_chosen_durations:
  assumes "parsedFiles \<noteq> []" and "i < length parsedFiles"
  shows "computeCumulativeShift (offsetsOf options) (map baseEndMsOf parsedFiles) parsedFiles ! i
           = shiftBefore (offsetsOf options) parsedFiles i
         \<and> computeCumulativeShift (offsetsOf options) (map baseEndMsOf parsedFiles) parsedFiles ! 0
           = 0
         \<and> cuesOfFile i (mergedCues (mergeParsedFilesSequential parsedFiles options))
           = (if sortFinalOf options then sort_key startMs else id)
               (shiftedCues i (shiftBefore (offsetsOf options) parsedFiles i)
                  (cues (parsedFiles ! i)))"
  using assms
  by (simp add: computeCumulativeShift_sum cuesOfFile_merged shiftBefore_def)

theorem cumulative_shift_is_sum_of_chosen_durations_witness:
  "exampleFiles \<noteq> [] \<and> (3::nat) < length exampleFiles
   \<and> computeCumulativeShift (offsetsOf exampleOptions) (map baseEndMsOf exampleFiles)
        exampleFiles ! 3 = 0 + 1683760 + 2000000 + 0
   \<and> computeCumulativeShift (offsetsOf exampleOptions) (map baseEndMsOf exampleFiles)
        exampleFiles ! 0 = 0
   \<and> cuesOfFile 3 (mergedCues (mergeParsedFilesSequential exampleFiles exampleOptions))
     = [\<lparr>startMs = 3683760, endMs = 4989980, cueText = ''C'', sourceFileIndex = Some 3\<rparr>]"
proof -
  have a: "exampleFiles \<noteq> []" by (simp add: exampleFiles_def)
  have b: "3 < length exampleFiles" by (simp add: exampleFiles_def)
  have c: "shiftBefore (offsetsOf exampleOptions) exampleFiles 3 = 3683760" by code_simp
  have d: "shiftedCues 3 3683760 (cues (exampleFiles ! 3))
           = [\<lparr>startMs = 3683760, endMs = 4989980, cueText = ''C'', sourceFileIndex = Some 3\<rparr>]"
    by code_simp
  have e: "sortFinalOf exampleOptions = False" by code_simp
  show ?thesis
    using cumulative_shift_is_sum_of_chosen_durations[OF a b, of exampleOptions] a b c d e
    by simp
qed

section \<open>An override does not move the file it is set for\<close>

lemma chosenDuration_other:
  "j \<noteq> i \<Longrightarrow> chosenDuration (offs(i := x)) parsedFiles j = chosenDuration offs parsedFiles j"
  by (simp add: chosenDuration_def)

lemma shiftBefore_other:
  "k \<le> i \<Longrightarrow> shiftBefore (offs(i := x)) parsedFiles k = shiftBefore offs parsedFiles k"
proof -
  assume "k \<le> i"
  then have "map (chosenDuration (offs(i := x)) parsedFiles) [0..<k]
             = map (chosenDuration offs parsedFiles) [0..<k]"
    by (auto simp: chosenDuration_other)
  then show ?thesis
    by (simp only: shiftBefore_def)
qed

text \<open>
  C2: setting \<open>perFileOffsetMs[i]\<close> changes only the shifts of the files after
  \<open>i\<close>: the cues of file \<open>i\<close> (and of every earlier file) in the merged output
  are the same, times included, with the override \<open>v\<close> for file \<open>i\<close> and with no
  override for it.
\<close>

theorem own_override_leaves_own_cues:
  assumes "k \<le> i"
  shows "cuesOfFile k (mergedCues (mergeParsedFilesSequential parsedFiles
            (options\<lparr>perFileOffsetMs := Some (offs(i \<mapsto> v))\<rparr>)))
       = cuesOfFile k (mergedCues (mergeParsedFilesSequential parsedFiles
            (options\<lparr>perFileOffsetMs := Some (offs(i := None))\<rparr>)))"
  using assms
  by (simp add: cuesOfFile_merged offsetsOf_def sortFinalOf_def shiftBefore_other)

theorem own_override_leaves_own_cues_witness:
  "(1::nat) \<le> 1
   \<and> cuesOfFile 1 (mergedCues (mergeParsedFilesSequential exampleFiles
        (defaultOptions\<lparr>perFileOffsetMs := Some (Map.empty(1 \<mapsto> 2000000))\<rparr>)))
     = [\<lparr>startMs = 1683760, endMs = 3483760, cueText = ''B'', sourceFileIndex = Some 1\<rparr>]
   \<and> cuesOfFile 1 (mergedCues (mergeParsedFilesSequential exampleFiles
        (defaultOptions\<lparr>perFileOffsetMs := Some (Map.empty(1 := None))\<rparr>)))
     = [\<lparr>startMs = 1683760, endMs = 3483760, cueText = ''B'', sourceFileIndex = Some 1\<rparr>]"
proof -
  have a: "cuesOfFile 1 (mergedCues (mergeParsedFilesSequential exampleFiles
        (defaultOptions\<lparr>perFileOffsetMs := Some (Map.empty(1 := None))\<rparr>)))
     = [\<lparr>startMs = 1683760, endMs = 3483760, cueText = ''B'', sourceFileIndex = Some 1\<rparr>]"
    by code_simp
  show ?thesis
    using own_override_leaves_own_cues[where k=1 and i=1 and parsedFiles=exampleFiles
        and options=defaultOptions and offs=Map.empty and v=2000000] a
    by simp
qed

section \<open>Order of the merged cues\<close>

text \<open>
  C4: for a non-empty list of files, with \<open>sortFinalByStart = true\<close> the merged
  cues have non-decreasing \<open>startMs\<close> and are the stable sort of the flattened
  list (cues with equal start keep their relative order); with
  \<open>sortFinalByStart\<close> false or absent they are in file order and, within each
  file, input cue order.
\<close>

theorem sort_option_orders_output:
  assumes "parsedFiles \<noteq> []"
  shows "(sortFinalByStart options = Some True \<longrightarrow>
            sorted (map startMs (mergedCues (mergeParsedFilesSequential parsedFiles options)))
            \<and> (\<forall>t. filter (\<lambda>c. startMs c = t)
                      (mergedCues (mergeParsedFilesSequential parsedFiles options))
                   = filter (\<lambda>c. startMs c = t)
                      (flattened (shiftBefore (offsetsOf options) parsedFiles) parsedFiles))
            \<and> mergedCues (mergeParsedFilesSequential parsedFiles options)
                = sort_key startMs
                    (flattened (shiftBefore (offsetsOf options) parsedFiles) parsedFiles))
       \<and> (sortFinalByStart options = Some False \<or> sortFinalByStart options = None \<longrightarrow>
            mergedCues (mergeParsedFilesSequential parsedFiles options)
              = flattened (shiftBefore (offsetsOf options) parsedFiles) parsedFiles)"
  by (auto simp: mergedCues_eq sortFinalOf_def sort_key_stable)

theorem sort_option_orders_output_witness:
  "unorderedFiles \<noteq> []
   \<and> sortFinalByStart (defaultOptions\<lparr>sortFinalByStart := Some True\<rparr>) = Some True
   \<and> sorted (map startMs (mergedCues (mergeParsedFilesSequential unorderedFiles
               (defaultOptions\<lparr>sortFinalByStart := Some True\<rparr>))))
   \<and> mergedCues (mergeParsedFilesSequential unorderedFiles
               (defaultOptions\<lparr>sortFinalByStart := Some True\<rparr>))
     = [\<lparr>startMs = 100, endMs = 200, cueText = ''B'', sourceFileIndex = Some 0\<rparr>,
        \<lparr>startMs = 500, endMs = 600, cueText = ''A'', sourceFileIndex = Some 0\<rparr>,
        \<lparr>startMs = 600, endMs = 650, cueText = ''C'', sourceFileIndex = Some 1\<rparr>]"
proof -
  have a: "unorderedFiles \<noteq> []" by (simp add: unorderedFiles_def)
  have b: "sort_key startMs (flattened (shiftBefore
             (offsetsOf (defaultOptions\<lparr>sortFinalByStart := Some True\<rparr>)) unorderedFiles)
             unorderedFiles)
     = [\<lparr>startMs = 100, endMs = 200, cueText = ''B'', sourceFileIndex = Some 0\<rparr>,
        \<lparr>startMs = 500, endMs = 600, cueText = ''A'', sourceFileIndex = Some 0\<rparr>,
        \<lparr>startMs = 600, endMs = 650, cueText = ''C'', sourceFileIndex = Some 1\<rparr>]"
    by code_simp
  show ?thesis
    using sort_option_orders_output[OF a, of "defaultOptions\<lparr>sortFinalByStart := Some True\<rparr>"] a b
    by simp
qed

section \<open>The validation scan\<close>

lemma pushCue_warnings:
  "list_all filePrefixed (snd st) \<Longrightarrow> list_all filePrefixed (snd (pushCue i shift c st))"
  by (auto simp: pushCue_def filePrefixed_def split: jsnum.splits)

lemma fold_pushCue_warnings:
  "list_all filePrefixed (snd st) \<Longrightarrow> list_all filePrefixed (snd (fold (pushCue i shift) cs st))"
  by (induction cs arbitrary: st) (simp_all add: pushCue_warnings)

lemma applyFile_warnings:
  "list_all filePrefixed (snd st)
   \<Longrightarrow> list_all filePrefixed (snd (applyFile parsedFiles cumulativeShift i st))"
  by (simp add: applyFile_def Let_def fold_pushCue_warnings) (simp add: filePrefixed_def)

lemma fold_applyFile_warnings:
  "list_all filePrefixed (snd st)
   \<Longrightarrow> list_all filePrefixed (snd (fold (applyFile parsedFiles cumulativeShift) ix st))"
  by (induction ix arbitrary: st) (simp_all add: applyFile_warnings)

lemma applyShifts_warnings:
  "list_all filePrefixed (snd (applyShifts parsedFiles cumulativeShift))"
  by (simp add: applyShifts_def fold_applyFile_warnings)

lemma count_not_filePrefixed:
  "list_all filePrefixed ws \<Longrightarrow> \<not> filePrefixed x \<Longrightarrow> count_list ws x = 0"
  by (induction ws) auto

lemma validateLoop_reversed_count:
  "count_list (fst (validateLoop merged i ws es)) ''cue_end_before_start''
   = count_list ws ''cue_end_before_start''
     + length (filter endsBeforeStart (takeWhile nonNegativeCue (drop i merged)))"
proof (induction merged i ws es rule: validateLoop.induct)
  case (1 merged i ws es)
  show ?case
  proof (cases "i < length merged")
    case False
    then show ?thesis by (simp add: validateLoop.simps[of merged i])
  next
    case True
    then have d: "drop i merged = merged ! i # drop (Suc i) merged"
      by (simp add: Cons_nth_drop_Suc)
    show ?thesis
    proof (cases "startMs (merged ! i) < 0 \<or> endMs (merged ! i) < 0")
      case neg: True
      then have "\<not> nonNegativeCue (merged ! i)" by (auto simp: nonNegativeCue_def)
      with True neg show ?thesis
        by (simp add: validateLoop.simps[of merged i] d)
    next
      case pos: False
      then have nn: "nonNegativeCue (merged ! i)" by (auto simp: nonNegativeCue_def)
      from True pos nn show ?thesis
        using "1.IH"[OF True refl pos refl refl]
        by (simp add: validateLoop.simps[of merged i] d Let_def endsBeforeStart_def)
    qed
  qed
qed

lemma validateLoop_overlap_count:
  "count_list (fst (validateLoop merged i ws es)) ''overlap_detected''
   = count_list ws ''overlap_detected''
     + length (filter (overlapAt merged)
                 [i..<i + length (takeWhile nonNegativeCue (drop i merged))])"
proof (induction merged i ws es rule: validateLoop.induct)
  case (1 merged i ws es)
  show ?case
  proof (cases "i < length merged")
    case False
    then show ?thesis by (simp add: validateLoop.simps[of merged i])
  next
    case True
    then have d: "drop i merged = merged ! i # drop (Suc i) merged"
      by (simp add: Cons_nth_drop_Suc)
    show ?thesis
    proof (cases "startMs (merged ! i) < 0 \<or> endMs (merged ! i) < 0")
      case neg: True
      then have "\<not> nonNegativeCue (merged ! i)" by (auto simp: nonNegativeCue_def)
      with True neg show ?thesis
        by (simp add: validateLoop.simps[of merged i] d)
    next
      case pos: False
      then have nn: "nonNegativeCue (merged ! i)" by (auto simp: nonNegativeCue_def)
      have tw: "takeWhile nonNegativeCue (drop i merged)
                = merged ! i # takeWhile nonNegativeCue (drop (Suc i) merged)"
        using nn by (simp add: d)
      have up: "[i..<i + length (takeWhile nonNegativeCue (drop i merged))]
                = i # [Suc i..<Suc i + length (takeWhile nonNegativeCue (drop (Suc i) merged))]"
        unfolding tw
        using upt_conv_Cons[of i "i + Suc (length (takeWhile nonNegativeCue (drop (Suc i) merged)))"]
        by (simp del: upt_Suc)
      have cond: "overlapAt merged i
                  = (0 < i \<and> startMs (merged ! i) < endMs (merged ! (i - 1))
                     \<and> sourceFileIndex (merged ! (i - 1)) = sourceFileIndex (merged ! i))"
        by (simp add: overlapAt_def)
      from True pos show ?thesis
        using "1.IH"[OF True refl pos refl refl]
        by (simp add: validateLoop.simps[of merged i] Let_def up cond)
    qed
  qed
qed

lemma warnings_eq:
  "parsedFiles \<noteq> [] \<Longrightarrow>
   warnings (mergeParsedFilesSequential parsedFiles options)
   = fst (validateLoop (mergedCues (mergeParsedFilesSequential parsedFiles options)) 0
        (snd (applyShifts parsedFiles
           (computeCumulativeShift (offsetsOf options) (map baseEndMsOf parsedFiles) parsedFiles)))
        [])"
  by (simp add: mergeParsedFilesSequential_def Let_def)

lemma reversed_count_merged:
  "count_list (warnings (mergeParsedFilesSequential parsedFiles options)) ''cue_end_before_start''
   = length (filter endsBeforeStart
       (scannedPrefix (mergedCues (mergeParsedFilesSequential parsedFiles options))))"
proof (cases "parsedFiles = []")
  case True
  then show ?thesis by (simp add: mergeParsedFilesSequential_def scannedPrefix_def)
next
  case False
  have "count_list (snd (applyShifts parsedFiles
           (computeCumulativeShift (offsetsOf options) (map baseEndMsOf parsedFiles) parsedFiles)))
          ''cue_end_before_start'' = 0"
    by (rule count_not_filePrefixed[OF applyShifts_warnings]) (simp add: filePrefixed_def)
  then show ?thesis
    by (simp add: warnings_eq[OF False] validateLoop_reversed_count scannedPrefix_def)
qed

lemma overlap_count_merged:
  "count_list (warnings (mergeParsedFilesSequential parsedFiles options)) ''overlap_detected''
   = length (filter (overlapAt (mergedCues (mergeParsedFilesSequential parsedFiles options)))
       [0..<length (scannedPrefix (mergedCues (mergeParsedFilesSequential parsedFiles options)))])"
proof (cases "parsedFiles = []")
  case True
  then show ?thesis by (simp add: mergeParsedFilesSequential_def scannedPrefix_def)
next
  case False
  have "count_list (snd (applyShifts parsedFiles
           (computeCumulativeShift (offsetsOf options) (map baseEndMsOf parsedFiles) parsedFiles)))
          ''overlap_detected'' = 0"
    by (rule count_not_filePrefixed[OF applyShifts_warnings]) (simp add: filePrefixed_def)
  then show ?thesis
    by (simp add: warnings_eq[OF False] validateLoop_overlap_count scannedPrefix_def)
qed

text \<open>
  C5, as the code has it: in the validation pass over the merged (possibly sorted)
  list, every cue whose end is before its start and which comes before the first
  cue with a negative time gives one \<open>cue_end_before_start\<close> warning; the scan
  goes on past such a cue, and stops only at the first cue with a negative time.
\<close>

theorem reversed_cues_warned_until_scan_stops:
  "count_list (warnings (mergeParsedFilesSequential parsedFiles options)) ''cue_end_before_start''
   = length (filter endsBeforeStart
       (scannedPrefix (mergedCues (mergeParsedFilesSequential parsedFiles options))))"
  by (rule reversed_count_merged)

theorem reversed_cues_warned_until_scan_stops_witness:
  "count_list (warnings (mergeParsedFilesSequential mixedFiles defaultOptions))
     ''cue_end_before_start'' = 1
   \<and> scannedPrefix (mergedCues (mergeParsedFilesSequential mixedFiles defaultOptions))
     = [\<lparr>startMs = 0, endMs = 2000, cueText = ''B'', sourceFileIndex = Some 0\<rparr>,
        \<lparr>startMs = 1000, endMs = 3000, cueText = ''C'', sourceFileIndex = Some 0\<rparr>,
        \<lparr>startMs = 5000, endMs = 4000, cueText = ''D'', sourceFileIndex = Some 0\<rparr>]"
proof -
  have a: "scannedPrefix (mergedCues (mergeParsedFilesSequential mixedFiles defaultOptions))
     = [\<lparr>startMs = 0, endMs = 2000, cueText = ''B'', sourceFileIndex = Some 0\<rparr>,
        \<lparr>startMs = 1000, endMs = 3000, cueText = ''C'', sourceFileIndex = Some 0\<rparr>,
        \<lparr>startMs = 5000, endMs = 4000, cueText = ''D'', sourceFileIndex = Some 0\<rparr>]"
    by code_simp
  show ?thesis
    using reversed_cues_warned_until_scan_stops[of mixedFiles defaultOptions] a
    by (simp add: endsBeforeStart_def)
qed

text \<open>
  The claim as written fails: a cue that ends before it starts, placed after a cue
  with a negative time, is in the merged list and gives no warning.
\<close>

theorem reversed_cue_after_negative_not_warned:
  "mergedCues (mergeParsedFilesSequential negativeThenReversed defaultOptions)
     = [\<lparr>startMs = - 1000, endMs = - 500, cueText = ''A'', sourceFileIndex = Some 0\<rparr>,
        \<lparr>startMs = 2000, endMs = 1000, cueText = ''B'', sourceFileIndex = Some 0\<rparr>]
   \<and> endMs (mergedCues (mergeParsedFilesSequential negativeThenReversed defaultOptions) ! 1)
       < startMs (mergedCues (mergeParsedFilesSequential negativeThenReversed defaultOptions) ! 1)
   \<and> count_list (warnings (mergeParsedFilesSequential negativeThenReversed defaultOptions))
        ''cue_end_before_start'' = 0
   \<and> warnings (mergeParsedFilesSequential negativeThenReversed defaultOptions) = []
   \<and> errors (mergeParsedFilesSequential negativeThenReversed defaultOptions)
       = [''negative_timestamps'']"
  by code_simp

text \<open>
  C6, as the code has it: the number of \<open>overlap_detected\<close> warnings is the number
  of positions \<open>j\<close>, before the first cue with a negative time, at which the cue
  before \<open>j\<close> ends after cue \<open>j\<close> starts and both carry the same
  \<open>sourceFileIndex\<close>; adjacent cues of different files never count.
\<close>

theorem overlaps_warned_until_scan_stops:
  "count_list (warnings (mergeParsedFilesSequential parsedFiles options)) ''overlap_detected''
   = length (filter (overlapAt (mergedCues (mergeParsedFilesSequential parsedFiles options)))
       [0..<length (scannedPrefix (mergedCues (mergeParsedFilesSequential parsedFiles options)))])"
  by (rule overlap_count_merged)

theorem overlaps_warned_until_scan_stops_witness:
  "count_list (warnings (mergeParsedFilesSequential mixedFiles defaultOptions))
     ''overlap_detected'' = 1
   \<and> filter (overlapAt (mergedCues (mergeParsedFilesSequential mixedFiles defaultOptions)))
       [0..<length (scannedPrefix (mergedCues (mergeParsedFilesSequential mixedFiles defaultOptions)))]
     = [1]"
proof -
  have a: "filter (overlapAt (mergedCues (mergeParsedFilesSequential mixedFiles defaultOptions)))
       [0..<length (scannedPrefix (mergedCues (mergeParsedFilesSequential mixedFiles defaultOptions)))]
     = [1]"
    by code_simp
  show ?thesis
    using overlaps_warned_until_scan_stops[of mixedFiles defaultOptions] a
    by simp
qed

text \<open>
  The claim as written fails: two adjacent cues of the same file overlap after a
  cue with a negative time, and no \<open>overlap_detected\<close> warning is given.
\<close>

theorem overlap_after_negative_not_warned:
  "mergedCues (mergeParsedFilesSequential negativeThenOverlap defaultOptions)
     = [\<lparr>startMs = - 1000, endMs = - 500, cueText = ''A'', sourceFileIndex = Some 0\<rparr>,
        \<lparr>startMs = 0, endMs = 2000, cueText = ''B'', sourceFileIndex = Some 0\<rparr>,
        \<lparr>startMs = 1000, endMs = 3000, cueText = ''C'', sourceFileIndex = Some 0\<rparr>]
   \<and> overlapAt (mergedCues (mergeParsedFilesSequential negativeThenOverlap defaultOptions)) 2
   \<and> count_list (warnings (mergeParsedFilesSequential negativeThenOverlap defaultOptions))
        ''overlap_detected'' = 0
   \<and> warnings (mergeParsedFilesSequential negativeThenOverlap defaultOptions) = []"
  by code_simp

section \<open>The permissive parser keeps blank lines\<close>

lemma parseStep_text:
  assumes "currentBlock st = Some b" and "\<not> expectingTimestamp st"
    and "\<not> isIndexLine (trim l)"
  shows "\<exists>r. parseStep l st = st\<lparr>textLines := textLines st @ [trim l], isReadingText := r\<rparr>"
proof (cases "isReadingText st")
  case True
  have "parseStep l st = st\<lparr>textLines := textLines st @ [trim l], isReadingText := True\<rparr>"
    using assms True by (simp add: parseStep_def Let_def)
  then show ?thesis by blast
next
  case False
  have "parseStep l st = st\<lparr>textLines := textLines st @ [trim l], isReadingText := True\<rparr>"
    using assms False by (simp add: parseStep_def Let_def)
  then show ?thesis by blast
qed

lemma fold_parseStep_text:
  assumes "currentBlock st = Some b" and "\<not> expectingTimestamp st"
    and "\<forall>l\<in>set ls. \<not> isIndexLine (trim l)"
  shows "\<exists>r. fold parseStep ls st
              = st\<lparr>textLines := textLines st @ map trim ls, isReadingText := r\<rparr>"
  using assms
proof (induction ls arbitrary: st)
  case Nil
  have "st = st\<lparr>textLines := textLines st, isReadingText := isReadingText st\<rparr>" by simp
  then show ?case by (metis append_Nil2 fold_simps(1) list.simps(8))
next
  case (Cons l ls)
  from Cons.prems obtain r where
    s: "parseStep l st = st\<lparr>textLines := textLines st @ [trim l], isReadingText := r\<rparr>"
    using parseStep_text[of st b l] by auto
  let ?st1 = "st\<lparr>textLines := textLines st @ [trim l], isReadingText := r\<rparr>"
  have "\<exists>r'. fold parseStep ls ?st1
              = ?st1\<lparr>textLines := textLines ?st1 @ map trim ls, isReadingText := r'\<rparr>"
    using Cons.prems by (intro Cons.IH) simp_all
  then show ?case by (auto simp: s)
qed

text \<open>
  What the parser of the merger's module does once a block exists and is past its
  timestamp: it appends every following line whose trimmed text is not an index to
  the open block's text lines, with leading and trailing white space removed; an
  empty or blank line is kept as an empty string and neither dropped nor taken as
  the end of the block. If no line follows, the block is flushed with exactly
  these text lines.
\<close>

lemma text_lines_appended_trimmed:
  assumes "splitLines raw = pre @ ls @ rest"
    and "currentBlock (parseLines pre) = Some b"
    and "\<not> expectingTimestamp (parseLines pre)"
    and "\<forall>l\<in>set ls. \<not> isIndexLine (trim l)"
  shows "textLines (parseLines (pre @ ls)) = textLines (parseLines pre) @ map trim ls
         \<and> currentBlock (parseLines (pre @ ls)) = Some b
         \<and> blocks (parseLines (pre @ ls)) = blocks (parseLines pre)
         \<and> (rest = [] \<longrightarrow>
              permissiveParseSrt raw
              = blocks (parseLines pre)
                @ [b\<lparr>texts := textLines (parseLines pre) @ map trim ls\<rparr>])"
proof -
  obtain r where
    f: "parseLines (pre @ ls)
        = (parseLines pre)\<lparr>textLines := textLines (parseLines pre) @ map trim ls,
                             isReadingText := r\<rparr>"
    using fold_parseStep_text[OF assms(2,3,4)] by (auto simp: parseLines_def)
  show ?thesis
    using assms(1,2) by (auto simp: f permissiveParseSrt_def finishParse_def)
qed

lemma text_lines_appended_trimmed_example:
  "splitLines captionWithBlank
     = [''1'', ''00:00:01,000 --> 00:00:02,000''] @ [''  Hello '', [], ''World''] @ []
   \<and> permissiveParseSrt captionWithBlank
     = [\<lparr>origIndex = Some 1, tsRaw = ''00:00:01,000 --> 00:00:02,000'',
         texts = [''Hello'', [], ''World'']\<rparr>]"
proof -
  let ?pre = "[''1'', ''00:00:01,000 --> 00:00:02,000'']"
  let ?ls = "[''  Hello '', [], ''World'']"
  let ?b = "\<lparr>origIndex = Some 1, tsRaw = ''00:00:01,000 --> 00:00:02,000'', texts = []\<rparr>"
  have h1: "splitLines captionWithBlank = ?pre @ ?ls @ []" by code_simp
  have h2: "currentBlock (parseLines ?pre) = Some ?b" by code_simp
  have h3: "\<not> expectingTimestamp (parseLines ?pre)" by code_simp
  have h4: "\<forall>l\<in>set ?ls. \<not> isIndexLine (trim l)" by code_simp
  have h5: "blocks (parseLines ?pre) = []" by code_simp
  have h6: "textLines (parseLines ?pre) = []" by code_simp
  have h7: "map trim ?ls = [''Hello'', [], ''World'']" by code_simp
  show ?thesis
    using text_lines_appended_trimmed[OF h1 h2 h3 h4] h1 h5 h6 h7 by simp
qed

text \<open>
  C7 fails on the code. The copy of the parser in \<^verbatim>\<open>src/utils/srt-merge.ts\<close>
  ends the block at a blank line inside the caption and loses the line after it,
  where the parser of the merger's module keeps both; and both copies store a line
  trimmed, not verbatim.
\<close>

theorem blank_line_ends_block_in_utils_copy:
  "permissiveParseSrtUtils captionWithBlank
     = [\<lparr>origIndex = Some 1, tsRaw = ''00:00:01,000 --> 00:00:02,000'', texts = [''Hello'']\<rparr>]
   \<and> permissiveParseSrt captionWithBlank
     = [\<lparr>origIndex = Some 1, tsRaw = ''00:00:01,000 --> 00:00:02,000'',
         texts = [''Hello'', [], ''World'']\<rparr>]
   \<and> splitLines paddedCaption ! 2 = ''  hi  ''
   \<and> permissiveParseSrt paddedCaption
     = [\<lparr>origIndex = Some 1, tsRaw = ''00:00:01,000 --> 00:00:02,000'', texts = [''hi'']\<rparr>]
   \<and> permissiveParseSrtUtils paddedCaption
     = [\<lparr>origIndex = Some 1, tsRaw = ''00:00:01,000 --> 00:00:02,000'', texts = [''hi'']\<rparr>]"
  by code_simp

section \<open>The raw-text merger\<close>

lemma processBlock_mergedBlocks:
  "map blockTexts (mergedBlocks (processBlock codec fileName b st))
   = map blockTexts (mergedBlocks st) @ [emittedTexts b]"
  by (simp add: processBlock_def Let_def emittedTexts_def split: option.splits)

lemma processBlock_inputCues:
  "inputCues (processBlock codec fileName b st) = inputCues st"
  by (simp add: processBlock_def Let_def split: option.splits)

lemma processBlock_issues:
  "parseIssues st = fallbackCount (diags st)
   \<Longrightarrow> parseIssues (processBlock codec fileName b st)
       = fallbackCount (diags (processBlock codec fileName b st))"
  by (simp add: processBlock_def Let_def fallbackCount_def split: option.splits)

lemma fold_processBlock_mergedBlocks:
  "map blockTexts (mergedBlocks (fold (processBlock codec fileName) bs st))
   = map blockTexts (mergedBlocks st) @ map emittedTexts bs"
  by (induction bs arbitrary: st) (simp_all add: processBlock_mergedBlocks)

lemma fold_processBlock_inputCues:
  "inputCues (fold (processBlock codec fileName) bs st) = inputCues st"
  by (induction bs arbitrary: st) (simp_all add: processBlock_inputCues)

lemma fold_processBlock_issues:
  "parseIssues st = fallbackCount (diags st)
   \<Longrightarrow> parseIssues (fold (processBlock codec fileName) bs st)
       = fallbackCount (diags (fold (processBlock codec fileName) bs st))"
  by (induction bs arbitrary: st) (simp_all add: processBlock_issues)

lemma processFile_mergedBlocks:
  "map blockTexts (mergedBlocks (processFile codec f st))
   = map blockTexts (mergedBlocks st) @ map emittedTexts (permissiveParseSrt (content f))"
  by (simp add: processFile_def Let_def fold_processBlock_mergedBlocks)

lemma processFile_inputCues:
  "inputCues (processFile codec f st) = inputCues st + length (permissiveParseSrt (content f))"
  by (simp add: processFile_def Let_def fold_processBlock_inputCues)

lemma processFile_issues:
  "parseIssues st = fallbackCount (diags st)
   \<Longrightarrow> parseIssues (processFile codec f st) = fallbackCount (diags (processFile codec f st))"
  by (simp add: processFile_def Let_def fold_processBlock_issues)

lemma fold_processFile_mergedBlocks:
  "map blockTexts (mergedBlocks (fold (processFile codec) fs st))
   = map blockTexts (mergedBlocks st)
     @ map emittedTexts (concat (map (\<lambda>f. permissiveParseSrt (content f)) fs))"
  by (induction fs arbitrary: st) (simp_all add: processFile_mergedBlocks)

lemma fold_processFile_inputCues:
  "inputCues (fold (processFile codec) fs st)
   = inputCues st + sum_list (map (\<lambda>f. length (permissiveParseSrt (content f))) fs)"
  by (induction fs arbitrary: st) (simp_all add: processFile_inputCues)

lemma fold_processFile_issues:
  "parseIssues st = fallbackCount (diags st)
   \<Longrightarrow> parseIssues (fold (processFile codec) fs st)
       = fallbackCount (diags (fold (processFile codec) fs st))"
  by (induction fs arbitrary: st) (simp_all add: processFile_issues)

lemma mergeLoop_texts:
  "map blockTexts (mergedBlocks (mergeLoop codec files))
   = map emittedTexts (concat (map (\<lambda>f. permissiveParseSrt (content f)) files))"
  by (simp add: mergeLoop_def fold_processFile_mergedBlocks initialMergeState_def)

lemma mergeLoop_inputCues:
  "inputCues (mergeLoop codec files)
   = sum_list (map (\<lambda>f. length (permissiveParseSrt (content f))) files)"
  by (simp add: mergeLoop_def fold_processFile_inputCues initialMergeState_def)

lemma mergeLoop_outputCues:
  "length (mergedBlocks (mergeLoop codec files))
   = sum_list (map (\<lambda>f. length (permissiveParseSrt (content f))) files)"
proof -
  have "length (mergedBlocks (mergeLoop codec files))
        = length (map blockTexts (mergedBlocks (mergeLoop codec files)))"
    by simp
  also have "\<dots> = length (concat (map (\<lambda>f. permissiveParseSrt (content f)) files))"
    by (simp only: mergeLoop_texts length_map)
  also have "\<dots> = sum_list (map (\<lambda>f. length (permissiveParseSrt (content f))) files)"
    by (simp add: length_concat comp_def)
  finally show ?thesis .
qed

lemma processBlock_emits:
  "mergedBlocks (processBlock codec fileName b st)
   = mergedBlocks st
     @ [\<lparr>index = globalIndex st,
         timestamp = timestampAt codec b (cumulativeMs st) (lastMergedEndMs st),
         blockTexts = emittedTexts b\<rparr>]"
  by (simp add: processBlock_def Let_def emittedTexts_def timestampAt_def split: option.splits)

lemma processBlock_globalIndex:
  "globalIndex (processBlock codec fileName b st) = Suc (globalIndex st)"
  by (simp add: processBlock_def Let_def split: option.splits)

lemma fold_processBlock_emitted:
  "list_all2 (\<lambda>blk b. blockTexts blk = emittedTexts b
                      \<and> (\<exists>cum lastEnd. timestamp blk = timestampAt codec b cum lastEnd))
     (mergedBlocks st) xs
   \<Longrightarrow> list_all2 (\<lambda>blk b. blockTexts blk = emittedTexts b
                      \<and> (\<exists>cum lastEnd. timestamp blk = timestampAt codec b cum lastEnd))
     (mergedBlocks (fold (processBlock codec fileName) bs st)) (xs @ bs)"
proof (induction bs arbitrary: st xs)
  case Nil
  then show ?case by simp
next
  case (Cons b bs)
  have "list_all2 (\<lambda>blk b. blockTexts blk = emittedTexts b
                      \<and> (\<exists>cum lastEnd. timestamp blk = timestampAt codec b cum lastEnd))
          (mergedBlocks (processBlock codec fileName b st)) (xs @ [b])"
    unfolding processBlock_emits
    by (rule list_all2_appendI[OF Cons.prems]) auto
  from Cons.IH[OF this] show ?case by simp
qed

lemma fold_processBlock_index:
  "globalIndex st = Suc (length (mergedBlocks st))
   \<Longrightarrow> map index (mergedBlocks st) = [1..<Suc (length (mergedBlocks st))]
   \<Longrightarrow> globalIndex (fold (processBlock codec fileName) bs st)
         = Suc (length (mergedBlocks (fold (processBlock codec fileName) bs st)))
       \<and> map index (mergedBlocks (fold (processBlock codec fileName) bs st))
         = [1..<Suc (length (mergedBlocks (fold (processBlock codec fileName) bs st)))]"
proof (induction bs arbitrary: st)
  case Nil
  then show ?case by simp
next
  case (Cons b bs)
  have "globalIndex (processBlock codec fileName b st)
        = Suc (length (mergedBlocks (processBlock codec fileName b st)))"
    using Cons.prems(1) by (simp add: processBlock_globalIndex processBlock_emits)
  moreover have "map index (mergedBlocks (processBlock codec fileName b st))
        = [1..<Suc (length (mergedBlocks (processBlock codec fileName b st)))]"
    using Cons.prems by (simp add: processBlock_emits)
  ultimately show ?case using Cons.IH by simp
qed

lemma processFile_emitted:
  "list_all2 (\<lambda>blk b. blockTexts blk = emittedTexts b
                      \<and> (\<exists>cum lastEnd. timestamp blk = timestampAt codec b cum lastEnd))
     (mergedBlocks st) xs
   \<Longrightarrow> list_all2 (\<lambda>blk b. blockTexts blk = emittedTexts b
                      \<and> (\<exists>cum lastEnd. timestamp blk = timestampAt codec b cum lastEnd))
     (mergedBlocks (processFile codec f st)) (xs @ permissiveParseSrt (content f))"
  using fold_processBlock_emitted[of codec
      "st\<lparr>inputCues := inputCues st + length (permissiveParseSrt (content f)),
          currentFileLastEndMs := 0\<rparr>" xs "name f" "permissiveParseSrt (content f)"]
  by (simp add: processFile_def Let_def)

lemma processFile_index:
  "globalIndex st = Suc (length (mergedBlocks st))
   \<Longrightarrow> map index (mergedBlocks st) = [1..<Suc (length (mergedBlocks st))]
   \<Longrightarrow> globalIndex (processFile codec f st)
         = Suc (length (mergedBlocks (processFile codec f st)))
       \<and> map index (mergedBlocks (processFile codec f st))
         = [1..<Suc (length (mergedBlocks (processFile codec f st)))]"
  using fold_processBlock_index[of
      "st\<lparr>inputCues := inputCues st + length (permissiveParseSrt (content f)),
          currentFileLastEndMs := 0\<rparr>" codec "name f" "permissiveParseSrt (content f)"]
  by (simp add: processFile_def Let_def)

lemma fold_processFile_emitted:
  "list_all2 (\<lambda>blk b. blockTexts blk = emittedTexts b
                      \<and> (\<exists>cum lastEnd. timestamp blk = timestampAt codec b cum lastEnd))
     (mergedBlocks st) xs
   \<Longrightarrow> list_all2 (\<lambda>blk b. blockTexts blk = emittedTexts b
                      \<and> (\<exists>cum lastEnd. timestamp blk = timestampAt codec b cum lastEnd))
     (mergedBlocks (fold (processFile codec) fs st))
     (xs @ concat (map (\<lambda>f. permissiveParseSrt (content f)) fs))"
proof (induction fs arbitrary: st xs)
  case Nil
  then show ?case by simp
next
  case (Cons f fs)
  from Cons.IH[OF processFile_emitted[OF Cons.prems]] show ?case by simp
qed

lemma fold_processFile_index:
  "globalIndex st = Suc (length (mergedBlocks st))
   \<Longrightarrow> map index (mergedBlocks st) = [1..<Suc (length (mergedBlocks st))]
   \<Longrightarrow> map index (mergedBlocks (fold (processFile codec) fs st))
       = [1..<Suc (length (mergedBlocks (fold (processFile codec) fs st)))]"
proof (induction fs arbitrary: st)
  case Nil
  then show ?case by simp
next
  case (Cons f fs)
  from processFile_index[OF Cons.prems, of codec f] Cons.IH show ?case by simp
qed

lemma mergeLoop_emitted:
  "list_all2 (\<lambda>blk b. blockTexts blk = emittedTexts b
                      \<and> (\<exists>cum lastEnd. timestamp blk = timestampAt codec b cum lastEnd))
     (mergedBlocks (mergeLoop codec files))
     (concat (map (\<lambda>f. permissiveParseSrt (content f)) files))"
  using fold_processFile_emitted[of codec initialMergeState "[]" files]
  by (simp add: mergeLoop_def initialMergeState_def)

lemma mergeLoop_index:
  "map index (mergedBlocks (mergeLoop codec files))
   = [1..<Suc (length (mergedBlocks (mergeLoop codec files)))]"
  unfolding mergeLoop_def
  by (rule fold_processFile_index) (simp_all add: initialMergeState_def)

text \<open>
  C9: for every list of files (and every codec), \<open>totalOutputCues\<close> equals
  \<open>totalInputCues\<close>, which is the number of blocks the permissive parser
  produces over all files. The returned document is the serialization of the merged
  blocks, of which there is exactly one for each parsed block, in order and numbered
  from 1: it carries the block's text lines (or the placeholder) and a time line
  that is either the shifted line or the fallback line; no block is dropped. In
  each round of the loop the time line is the one for the cumulative offset and the
  last merged end time of that round.
\<close>

theorem every_parsed_block_is_emitted_once:
  "totalOutputCues (stats (mergeSrtFiles codec files))
     = totalInputCues (stats (mergeSrtFiles codec files))
   \<and> totalInputCues (stats (mergeSrtFiles codec files))
     = sum_list (map (\<lambda>f. length (permissiveParseSrt (content f))) files)
   \<and> map blockTexts (mergedBlocks (mergeLoop codec files))
     = map emittedTexts (concat (map (\<lambda>f. permissiveParseSrt (content f)) files))
   \<and> mergedSrt (mergeSrtFiles codec files)
     = joinWith [CHR 0x0A] (map renderBlock (mergedBlocks (mergeLoop codec files)))
   \<and> totalOutputCues (stats (mergeSrtFiles codec files))
     = length (mergedBlocks (mergeLoop codec files))
   \<and> map index (mergedBlocks (mergeLoop codec files))
     = [1..<Suc (length (mergedBlocks (mergeLoop codec files)))]
   \<and> list_all2 (\<lambda>blk b. blockTexts blk = emittedTexts b
                    \<and> (\<exists>cum lastEnd. timestamp blk = timestampAt codec b cum lastEnd))
       (mergedBlocks (mergeLoop codec files))
       (concat (map (\<lambda>f. permissiveParseSrt (content f)) files))
   \<and> mergedBlocks (processBlock codec fileName b st)
     = mergedBlocks st
       @ [\<lparr>index = globalIndex st,
           timestamp = timestampAt codec b (cumulativeMs st) (lastMergedEndMs st),
           blockTexts = emittedTexts b\<rparr>]"
proof -
  have counts: "totalOutputCues (stats (mergeSrtFiles codec files))
        = totalInputCues (stats (mergeSrtFiles codec files))
      \<and> totalInputCues (stats (mergeSrtFiles codec files))
        = sum_list (map (\<lambda>f. length (permissiveParseSrt (content f))) files)"
    by (simp add: mergeSrtFiles_def Let_def mergeLoop_inputCues mergeLoop_outputCues)
  have returned: "mergedSrt (mergeSrtFiles codec files)
        = joinWith [CHR 0x0A] (map renderBlock (mergedBlocks (mergeLoop codec files)))
      \<and> totalOutputCues (stats (mergeSrtFiles codec files))
        = length (mergedBlocks (mergeLoop codec files))"
    by (simp add: mergeSrtFiles_def Let_def)
  show ?thesis
    using counts returned mergeLoop_texts[of codec files] mergeLoop_index[of codec files]
      mergeLoop_emitted[of codec files] processBlock_emits[of codec fileName b st]
    by blast
qed

theorem every_parsed_block_is_emitted_once_witness:
  "totalOutputCues (stats (mergeSrtFiles (specCodec 1000) threeBlocks)) = 3
   \<and> totalInputCues (stats (mergeSrtFiles (specCodec 1000) threeBlocks)) = 3
   \<and> map blockTexts (mergedBlocks (mergeLoop (specCodec 1000) threeBlocks))
     = [[''One'', []], [''Two'', []], [''Three'']]
   \<and> map index (mergedBlocks (mergeLoop (specCodec 1000) threeBlocks)) = [1, 2, 3]
   \<and> map timestamp (mergedBlocks (mergeLoop (specCodec 1000) threeBlocks))
     = [''00:00:01,000 --> 00:00:02,000'', ''00:00:02,200 --> 00:00:03,200'',
        ''00:00:05,000 --> 00:00:06,000'']
   \<and> mergedSrt (mergeSrtFiles (specCodec 1000) threeBlocks)
     = joinWith [CHR 0x0A] (map renderBlock (mergedBlocks (mergeLoop (specCodec 1000) threeBlocks)))"
proof -
  have p: "map emittedTexts (concat (map (\<lambda>f. permissiveParseSrt (content f)) threeBlocks))
           = [[''One'', []], [''Two'', []], [''Three'']]"
    by code_simp
  have q: "sum_list (map (\<lambda>f. length (permissiveParseSrt (content f))) threeBlocks) = 3"
    by code_simp
  have r: "map timestamp (mergedBlocks (mergeLoop (specCodec 1000) threeBlocks))
     = [''00:00:01,000 --> 00:00:02,000'', ''00:00:02,200 --> 00:00:03,200'',
        ''00:00:05,000 --> 00:00:06,000'']"
    by code_simp
  have u: "[1..<Suc 3] = [1, 2, 3]"
    by code_simp
  note t = every_parsed_block_is_emitted_once[of "specCodec 1000" threeBlocks]
  have out3: "totalOutputCues (stats (mergeSrtFiles (specCodec 1000) threeBlocks)) = 3"
    using t q by (simp del: upt_Suc)
  have inp3: "totalInputCues (stats (mergeSrtFiles (specCodec 1000) threeBlocks)) = 3"
    using t q by (simp del: upt_Suc)
  have lines3: "map blockTexts (mergedBlocks (mergeLoop (specCodec 1000) threeBlocks))
     = [[''One'', []], [''Two'', []], [''Three'']]"
    using t p by (simp del: upt_Suc)
  have len: "length (mergedBlocks (mergeLoop (specCodec 1000) threeBlocks)) = 3"
    using t out3 by (simp del: upt_Suc)
  have idx: "map index (mergedBlocks (mergeLoop (specCodec 1000) threeBlocks))
     = [1..<Suc (length (mergedBlocks (mergeLoop (specCodec 1000) threeBlocks)))]"
    using t by blast
  have idx3: "map index (mergedBlocks (mergeLoop (specCodec 1000) threeBlocks)) = [1, 2, 3]"
    using idx by (simp only: len u)
  have ser: "mergedSrt (mergeSrtFiles (specCodec 1000) threeBlocks)
     = joinWith [CHR 0x0A] (map renderBlock (mergedBlocks (mergeLoop (specCodec 1000) threeBlocks)))"
    using t by blast
  show ?thesis
    using out3 inp3 lines3 idx3 r ser by blast
qed

text \<open>
  C10: for every list of files (and every codec), \<open>parseIssuesCount\<close> equals the
  number of diagnostics whose action is \<open>fallback\<close>.
\<close>

theorem parse_issues_count_fallback_diagnostics:
  "parseIssuesCount (stats (mergeSrtFiles codec files))
   = length (filter (\<lambda>d. action d = Fallback) (diagnostics (mergeSrtFiles codec files)))"
proof -
  have "parseIssues (mergeLoop codec files) = fallbackCount (diags (mergeLoop codec files))"
    unfolding mergeLoop_def
    by (rule fold_processFile_issues) (simp add: initialMergeState_def fallbackCount_def)
  then show ?thesis
    by (simp add: mergeSrtFiles_def Let_def fallbackCount_def)
qed

theorem parse_issues_count_fallback_diagnostics_witness:
  "parseIssuesCount (stats (mergeSrtFiles (specCodec 1000) threeBlocks)) = 1
   \<and> length (filter (\<lambda>d. action d = Fallback)
               (diagnostics (mergeSrtFiles (specCodec 1000) threeBlocks))) = 1"
proof -
  have p: "parseIssuesCount (stats (mergeSrtFiles (specCodec 1000) threeBlocks)) = 1"
    by code_simp
  show ?thesis
    using parse_issues_count_fallback_diagnostics[of "specCodec 1000" threeBlocks] p by simp
qed

text \<open>
  C8 fails on the code: a block whose text lines are a non-empty list of empty
  strings is emitted with those lines and not with the placeholder, so the
  serialized cue has empty content. The placeholder is used only when the list of
  text lines is empty.
\<close>

theorem blank_only_block_keeps_empty_text:
  "permissiveParseSrt blankCaption
     = [\<lparr>origIndex = Some 1, tsRaw = ''00:00:01,000 --> 00:00:02,000'', texts = [[]]\<rparr>]
   \<and> map blockTexts (mergedBlocks (mergeLoop codec [\<lparr>name = ''a.srt'', content = blankCaption\<rparr>]))
     = [[[]]]
   \<and> mergedSrt (mergeSrtFiles (specCodec 1000) [\<lparr>name = ''a.srt'', content = blankCaption\<rparr>])
     = ''1\<newline>00:00:01,000 --> 00:00:02,000\<newline>\<newline>''"
proof -
  have q: "mergedSrt (mergeSrtFiles (specCodec 1000) [\<lparr>name = ''a.srt'', content = blankCaption\<rparr>])
     = ''1\<newline>00:00:01,000 --> 00:00:02,000\<newline>\<newline>''"
    by code_simp
  have p: "permissiveParseSrt blankCaption
     = [\<lparr>origIndex = Some 1, tsRaw = ''00:00:01,000 --> 00:00:02,000'', texts = [[]]\<rparr>]"
    by code_simp
  show ?thesis
    by (simp add: mergeLoop_texts p q emittedTexts_def)
qed

end
